theory Spec2Isabelle
  imports Complex_Main "HOL-Library.Word"
begin

section \<open>Python values shared by the warranty analyzer service\<close>

text \<open>
  The service is Python. Every exception the modelled code can raise or let through is a
  value of \<open>py_error\<close>; a function that may raise returns \<open>py_error + 'a\<close>, with
  \<open>Inl\<close> the exception. \<open>OtherError\<close> stands for any exception class the code does not
  name (a corrupt file, a network failure, a recursion limit).
\<close>

datatype py_error =
    AttributeError
  | TypeError
  | OverflowError
  | ImportError
  | JSONDecodeError
  | RuntimeError py_error
  | ValidationError
  | ValueError string
  | OtherError string

section \<open>Warranty dates: \<open>WarrantyAnalyzer.extract_warranty_dates\<close>\<close>

text \<open>
  A \<open>datetime\<close> is its proleptic Gregorian day number (\<open>date.toordinal()\<close>: day 1 is
  0001-01-01, day 3652059 is 9999-12-31) and the microseconds since midnight. Python
  keeps every datetime inside that range and raises \<open>OverflowError\<close> when an addition
  leaves it.
\<close>

record datetime =
  ordinal :: int
  micros :: nat

definition MAXORDINAL :: int where
  "MAXORDINAL = 3652059"

definition MAX_DELTA_DAYS :: int where
  "MAX_DELTA_DAYS = 999999999"

definition valid_datetime :: "datetime \<Rightarrow> bool" where
  "valid_datetime d = (1 \<le> ordinal d \<and> ordinal d \<le> MAXORDINAL \<and> micros d < 86400000000)"

text \<open>
  \<open>timedelta(days=n)\<close>: only the day count is ever given, so a timedelta is its number
  of days. The constructor raises \<open>OverflowError\<close> beyond 999999999 days either way.
\<close>

definition timedelta :: "int \<Rightarrow> py_error + int" where
  "timedelta days =
     (if - MAX_DELTA_DAYS \<le> days \<and> days \<le> MAX_DELTA_DAYS then Inr days
      else Inl OverflowError)"

text \<open>\<open>datetime.__add__\<close> for a timedelta of whole days: the time of day is kept.\<close>

definition datetime_add :: "datetime \<Rightarrow> int \<Rightarrow> py_error + datetime" where
  "datetime_add d delta_days =
     (let day = ordinal d + delta_days
      in if 0 < day \<and> day \<le> MAXORDINAL then Inr (d\<lparr>ordinal := day\<rparr>)
         else Inl OverflowError)"

text \<open>
  \<^verbatim>\<open>
  if duration_months is None:
      return (None, None)
  start_date = purchase_date or datetime.now()
  expiry_date = start_date + timedelta(days=duration_months * 30)
  return (start_date, expiry_date)
  \<close>
  \<open>now\<close> is the reading of the clock, taken only when no purchase date is given
  (a datetime object is never falsy, so \<open>or\<close> tests for \<open>None\<close>).
\<close>

definition extract_warranty_dates ::
  "datetime \<Rightarrow> int option \<Rightarrow> datetime option
     \<Rightarrow> py_error + (datetime option \<times> datetime option)" where
  "extract_warranty_dates now duration_months purchase_date =
     (case duration_months of
        None \<Rightarrow> Inr (None, None)
      | Some m \<Rightarrow>
          (let start_date = (case purchase_date of Some d \<Rightarrow> d | None \<Rightarrow> now)
           in case timedelta (m * 30) of
                Inl e \<Rightarrow> Inl e
              | Inr delta \<Rightarrow>
                  (case datetime_add start_date delta of
                     Inl e \<Rightarrow> Inl e
                   | Inr expiry_date \<Rightarrow> Inr (Some start_date, Some expiry_date))))"

text \<open>The date \<open>n\<close> days after \<open>d\<close>, at the same time of day.\<close>

definition plus_days :: "datetime \<Rightarrow> int \<Rightarrow> datetime" where
  "plus_days d n = d\<lparr>ordinal := ordinal d + n\<rparr>"

text \<open>The inputs on which the thirty-day arithmetic stays inside Python's ranges.\<close>

definition dates_in_range :: "int \<Rightarrow> datetime \<Rightarrow> bool" where
  "dates_in_range m d =
     (- MAX_DELTA_DAYS \<le> m * 30 \<and> m * 30 \<le> MAX_DELTA_DAYS \<and>
      0 < ordinal d + m * 30 \<and> ordinal d + m * 30 \<le> MAXORDINAL)"

section \<open>The model's reply: \<open>WarrantyAnalyzer._parse_analysis_response\<close>\<close>

text \<open>
  What \<open>json.loads\<close> returns: \<open>None\<close>, a bool, an int, a float (finite, infinite or
  NaN: the decoder accepts \<open>Infinity\<close> and \<open>NaN\<close>), a str, a list, or a dict, given by
  its items in insertion order. A finite float is its exact value.
\<close>

datatype pyfloat = Finite real | PosInf | NegInf | NaN

datatype json =
    JNull
  | JBool bool
  | JInt int
  | JFloat pyfloat
  | JStr string
  | JList "json list"
  | JDict "(string \<times> json) list"

text \<open>\<open>data.get(key, default)\<close> on a dict.\<close>

definition dict_get :: "(string \<times> json) list \<Rightarrow> string \<Rightarrow> json \<Rightarrow> json" where
  "dict_get items k d = (case map_of items k of None \<Rightarrow> d | Some v \<Rightarrow> v)"

text \<open>
  Python's \<open><=\<close> between a float and another value. Ints (and bools, which are ints)
  compare by value; every comparison with NaN is false; any other operand raises
  \<open>TypeError\<close>.
\<close>

fun as_number :: "json \<Rightarrow> pyfloat option" where
  "as_number (JBool b) = Some (Finite (if b then 1 else 0))"
| "as_number (JInt i) = Some (Finite (of_int i))"
| "as_number (JFloat x) = Some x"
| "as_number JNull = None"
| "as_number (JStr s) = None"
| "as_number (JList xs) = None"
| "as_number (JDict items) = None"

fun pyfloat_le :: "pyfloat \<Rightarrow> pyfloat \<Rightarrow> bool" where
  "pyfloat_le NaN y = False"
| "pyfloat_le x NaN = False"
| "pyfloat_le NegInf y = True"
| "pyfloat_le x PosInf = True"
| "pyfloat_le PosInf y = False"
| "pyfloat_le x NegInf = False"
| "pyfloat_le (Finite a) (Finite b) = (a \<le> b)"

text \<open>\<open>0.0 <= v <= 1.0\<close>: the chained comparison, \<open>0.0 <= v and v <= 1.0\<close>.\<close>

definition score_in_range :: "json \<Rightarrow> py_error + bool" where
  "score_in_range v =
     (case as_number v of
        None \<Rightarrow> Inl TypeError
      | Some x \<Rightarrow> Inr (pyfloat_le (Finite 0) x \<and> pyfloat_le x (Finite 1)))"

text \<open>
  \<open>re.search(r"\{.*\}", response_text, re.DOTALL)\<close>: the leftmost match starts at the
  first opening brace, and the greedy \<open>.*\<close> (which crosses newlines) runs to the last
  closing brace after it. There is a match exactly when a closing brace follows the first
  opening brace.
\<close>

definition json_match :: "string \<Rightarrow> string option" where
  "json_match response_text =
     (let rest = dropWhile (\<lambda>c. c \<noteq> CHR ''{'') response_text
      in if CHR ''}'' \<in> set rest
         then Some (rev (dropWhile (\<lambda>c. c \<noteq> CHR ''}'') (rev rest)))
         else None)"

definition json_str :: "string \<Rightarrow> string" where
  "json_str response_text =
     (case json_match response_text of Some m \<Rightarrow> m | None \<Rightarrow> response_text)"

text \<open>
  The dictionary the parser returns: sixteen keys, each holding whatever the payload held
  (nothing checks the types here).
\<close>

record analysis =
  summary :: json
  duration :: json
  duration_months :: json
  coverage_items :: json
  exclusions :: json
  limitations :: json
  claim_procedure :: json
  claim_contacts :: json
  required_docs :: json
  critical_dates :: json
  transferable :: json
  extended_options :: json
  critical_highlights :: json
  warning_highlights :: json
  info_highlights :: json
  confidence_score :: json

text \<open>Lines 182 to 199: every key read with \<open>data.get\<close> and its default.\<close>

definition populate :: "(string \<times> json) list \<Rightarrow> analysis" where
  "populate data =
     \<lparr> summary = dict_get data ''summary'' (JStr []),
       duration = dict_get data ''duration'' JNull,
       duration_months = dict_get data ''duration_months'' JNull,
       coverage_items = dict_get data ''coverage_items'' (JList []),
       exclusions = dict_get data ''exclusions'' (JList []),
       limitations = dict_get data ''limitations'' (JList []),
       claim_procedure = dict_get data ''claim_procedure'' JNull,
       claim_contacts = dict_get data ''claim_contacts'' (JDict []),
       required_docs = dict_get data ''required_docs'' (JList []),
       critical_dates = dict_get data ''critical_dates'' (JList []),
       transferable = dict_get data ''transferable'' JNull,
       extended_options = dict_get data ''extended_options'' JNull,
       critical_highlights = dict_get data ''critical_highlights'' (JList []),
       warning_highlights = dict_get data ''warning_highlights'' (JList []),
       info_highlights = dict_get data ''info_highlights'' (JList []),
       confidence_score = dict_get data ''confidence_score'' (JFloat (Finite 0.5)) \<rparr>"

text \<open>Lines 213 to 230: the minimal response returned when the payload does not decode.\<close>

definition failure_response :: analysis where
  "failure_response =
     \<lparr> summary = JStr ''Failed to analyze warranty contract'',
       duration = JNull,
       duration_months = JNull,
       coverage_items = JList [],
       exclusions = JList [],
       limitations = JList [],
       claim_procedure = JNull,
       claim_contacts = JDict [],
       required_docs = JList [],
       critical_dates = JList [],
       transferable = JNull,
       extended_options = JNull,
       critical_highlights = JList [],
       warning_highlights = JList [],
       info_highlights = JList [],
       confidence_score = JFloat (Finite 0.1) \<rparr>"

text \<open>
  The only effect of the parser is on the logger. A log is the list of records written so
  far; a record is its level and what it reports.
\<close>

datatype log_record =
    Warning_invalid_confidence json
  | Error_json_parse
  | Debug_response_text string
  | Error_analyzing py_error

type_synonym log = "log_record list"

text \<open>
  \<open>json.loads\<close> belongs to the standard library and is a parameter \<open>loads\<close>: the decoded
  value, or the exception it raises (\<open>JSONDecodeError\<close> on malformed text; others, such as
  a recursion limit, are possible). The \<open>except\<close> clause catches \<open>JSONDecodeError\<close> alone.
  A value other than a dict has no \<open>get\<close>: the first \<open>data.get\<close> raises
  \<open>AttributeError\<close>.
\<close>

definition parse_analysis_response ::
  "(string \<Rightarrow> py_error + json) \<Rightarrow> string \<Rightarrow> log \<Rightarrow> (py_error + analysis) \<times> log" where
  "parse_analysis_response loads response_text lg =
     (case loads (json_str response_text) of
        Inl JSONDecodeError \<Rightarrow>
          (Inr failure_response, lg @ [Error_json_parse, Debug_response_text response_text])
      | Inl e \<Rightarrow> (Inl e, lg)
      | Inr (JDict data) \<Rightarrow>
          (let result = populate data
           in case score_in_range (confidence_score result) of
                Inl e \<Rightarrow> (Inl e, lg)
              | Inr True \<Rightarrow> (Inr result, lg)
              | Inr False \<Rightarrow>
                  (Inr (result\<lparr>confidence_score := JFloat (Finite 0.5)\<rparr>),
                   lg @ [Warning_invalid_confidence (confidence_score result)]))
      | Inr other \<Rightarrow> (Inl AttributeError, lg))"

text \<open>
  \<open>ResponseParser.parse\<close> is lines 61 to 73 of \<open>analyze_warranty\<close>: parse the reply, then
  build the result object. \<open>ClaudeAnalysisResult(**analysis_data)\<close> is pydantic's
  validation, a parameter \<open>make_result\<close> here. Whatever is raised is logged and raised again.
\<close>

definition parse ::
  "(string \<Rightarrow> py_error + json) \<Rightarrow> (analysis \<Rightarrow> py_error + 'r) \<Rightarrow> string \<Rightarrow> log
     \<Rightarrow> (py_error + 'r) \<times> log" where
  "parse loads make_result response_text lg =
     (case parse_analysis_response loads response_text lg of
        (Inl e, lg') \<Rightarrow> (Inl e, lg' @ [Error_analyzing e])
      | (Inr analysis_data, lg') \<Rightarrow>
          (case make_result analysis_data of
             Inl e \<Rightarrow> (Inl e, lg' @ [Error_analyzing e])
           | Inr result \<Rightarrow> (Inr result, lg')))"

section \<open>Text acquisition: \<open>DocumentProcessor\<close>\<close>

subsection \<open>Strings\<close>

text \<open>
  A Python \<open>str\<close> is a list of characters and \<open>len\<close> is its length. \<open>str.strip()\<close>
  removes the characters for which \<open>str.isspace\<close> holds from both ends: the ASCII
  controls 9 to 13 and 28 to 31, the space, and in the Latin-1 range 0x85 and 0xA0.
\<close>

definition isspace :: "char \<Rightarrow> bool" where
  "isspace c =
     (let n = (of_char c :: nat)
      in (9 \<le> n \<and> n \<le> 13) \<or> (28 \<le> n \<and> n \<le> 32) \<or> n = 133 \<or> n = 160)"

definition strip :: "string \<Rightarrow> string" where
  "strip s = rev (dropWhile isspace (rev (dropWhile isspace s)))"

text \<open>\<open>sep.join(parts)\<close>.\<close>

fun join :: "string \<Rightarrow> string list \<Rightarrow> string" where
  "join sep [] = []"
| "join sep [x] = x"
| "join sep (x # y # ys) = x @ sep @ join sep (y # ys)"

text \<open>\<open>str(n)\<close> for a page number: its decimal digits.\<close>

definition digit_char :: "nat \<Rightarrow> char" where
  "digit_char d = ''0123456789'' ! d"

fun str_nat :: "nat \<Rightarrow> string" where
  "str_nat n = (if n < 10 then [digit_char n] else str_nat (n div 10) @ [digit_char (n mod 10)])"

declare str_nat.simps [simp del]

definition NL :: char where
  "NL = CHR 0x0A"

text \<open>\<open>f"--- Page {n} ---\n"\<close>, the marker put before the text of page \<open>n\<close>.\<close>

definition page_marker :: "nat \<Rightarrow> string" where
  "page_marker n = ''--- Page '' @ str_nat n @ '' ---'' @ [NL]"

definition page_sep :: string where
  "page_sep = [NL, NL]"

subsection \<open>The data model\<close>

type_synonym bytes = "8 word list"

text \<open>\<open>DocumentType\<close>, a \<open>str\<close> enumeration: each member is its value.\<close>

definition PDF :: string where "PDF = ''application/pdf''"
definition PNG :: string where "PNG = ''image/png''"
definition JPEG :: string where "JPEG = ''image/jpeg''"
definition JPG :: string where "JPG = ''image/jpg''"

text \<open>
  \<open>OCRResult\<close> is a pydantic model: \<open>confidence: float = Field(ge=0.0, le=1.0)\<close>, so the
  constructor raises a validation error for a confidence outside \<open>[0, 1]\<close>. The confidences
  are float literals, taken at their decimal value.
\<close>

record OCRResult =
  ocr_text :: string
  confidence :: real
  page_count :: nat

definition new_OCRResult :: "string \<Rightarrow> real \<Rightarrow> nat \<Rightarrow> py_error + OCRResult" where
  "new_OCRResult t c n =
     (if 0 \<le> c \<and> c \<le> 1 then Inr \<lparr>ocr_text = t, confidence = c, page_count = n\<rparr>
      else Inl ValidationError)"

subsection \<open>The libraries and the vision model\<close>

text \<open>
  Pillow, as far as the code uses it, over an abstract type of images. Every operation may
  raise. \<open>paste\<close> returns the background after the paste; \<open>save_png\<close> takes the
  \<open>optimize\<close> flag and returns the bytes written.
\<close>

record 'img pil =
  open_image :: "bytes \<Rightarrow> py_error + 'img"
  mode_of :: "'img \<Rightarrow> string"
  size_of :: "'img \<Rightarrow> nat \<times> nat"
  new_rgb_white :: "nat \<times> nat \<Rightarrow> py_error + 'img"
  convert_rgba :: "'img \<Rightarrow> py_error + 'img"
  last_band :: "'img \<Rightarrow> py_error + 'img"
  paste :: "'img \<Rightarrow> 'img \<Rightarrow> 'img option \<Rightarrow> py_error + 'img"
  resize_lanczos :: "'img \<Rightarrow> nat \<times> nat \<Rightarrow> py_error + 'img"
  save_png :: "'img \<Rightarrow> bool \<Rightarrow> py_error + bytes"
  scale_dim :: "nat \<Rightarrow> nat \<Rightarrow> nat"

text \<open>
  \<open>scale_dim dim m\<close> is \<open>int(dim * (2048 / m))\<close>, computed by Python in double
  precision; the rounding is left to the parameter.

  The other collaborators. \<open>pdf_reader\<close> is \<open>PdfReader(...).pages\<close>, each page given by
  what its \<open>extract_text()\<close> returns or raises. \<open>pdf2image\<close> is \<open>None\<close> when the import
  of the library fails, and \<open>convert_from_bytes\<close> otherwise. \<open>claude_vision\<close> is the
  call of the vision model on an image and its media type, returning the concatenated text
  blocks; its answer may depend on the requests made before.
\<close>

type_synonym vision_log = "(bytes \<times> string) list"

record 'img capabilities =
  pillow :: "'img pil"
  pdf_reader :: "bytes \<Rightarrow> py_error + (py_error + string) list"
  pdf2image :: "(bytes \<Rightarrow> py_error + 'img list) option"
  claude_vision :: "vision_log \<Rightarrow> bytes \<Rightarrow> string \<Rightarrow> py_error + string"

subsection \<open>\<open>_optimize_image\<close>\<close>

definition bind_err :: "py_error + 'a \<Rightarrow> ('a \<Rightarrow> py_error + 'b) \<Rightarrow> py_error + 'b" where
  "bind_err m f = (case m of Inl e \<Rightarrow> Inl e | Inr x \<Rightarrow> f x)"

text \<open>Lines 213 to 218: an image with transparency or a palette is pasted on white.\<close>

definition flatten :: "'img pil \<Rightarrow> 'img \<Rightarrow> py_error + 'img" where
  "flatten p img =
     (if mode_of p img \<in> set [''RGBA'', ''LA'', ''P'']
      then bind_err (new_rgb_white p (size_of p img)) (\<lambda>background.
           bind_err (if mode_of p img = ''P'' then convert_rgba p img else Inr img)
             (\<lambda>img'.
           bind_err (if mode_of p img' = ''RGBA''
                     then bind_err (last_band p img') (\<lambda>band. Inr (Some band))
                     else Inr None) (\<lambda>mask.
           paste p background img' mask)))
      else Inr img)"

text \<open>Lines 221 to 226: an image whose longer side exceeds 2048 is scaled down.\<close>

definition max_dimension :: nat where
  "max_dimension = 2048"

definition bound_size :: "'img pil \<Rightarrow> 'img \<Rightarrow> py_error + 'img" where
  "bound_size p img =
     (let (w, h) = size_of p img; m = max w h
      in if m > max_dimension
         then resize_lanczos p img (scale_dim p w m, scale_dim p h m)
         else Inr img)"

text \<open>The body of the \<open>try\<close>, lines 210 to 231.\<close>

definition optimize_steps :: "'img pil \<Rightarrow> bytes \<Rightarrow> py_error + bytes" where
  "optimize_steps p image_bytes =
     bind_err (open_image p image_bytes) (\<lambda>img.
     bind_err (flatten p img) (\<lambda>flat.
     bind_err (bound_size p flat) (\<lambda>sized.
     save_png p sized True)))"

text \<open>\<open>except Exception: return image_bytes\<close>.\<close>

definition optimize_image :: "'img pil \<Rightarrow> bytes \<Rightarrow> py_error + bytes" where
  "optimize_image p image_bytes =
     (case optimize_steps p image_bytes of
        Inl e \<Rightarrow> Inr image_bytes
      | Inr out \<Rightarrow> Inr out)"

subsection \<open>The vision call and the three strategies\<close>

text \<open>
  \<open>_extract_text_with_claude_vision\<close>: the request is recorded, any exception becomes a
  \<open>RuntimeError\<close>, and the text is stripped.
\<close>

definition extract_text_with_claude_vision ::
  "'img capabilities \<Rightarrow> bytes \<Rightarrow> string \<Rightarrow> vision_log \<Rightarrow> (py_error + string) \<times> vision_log" where
  "extract_text_with_claude_vision caps image_bytes mime_type vlog =
     (case claude_vision caps vlog image_bytes mime_type of
        Inl e \<Rightarrow> (Inl (RuntimeError e), vlog @ [(image_bytes, mime_type)])
      | Inr extracted_text \<Rightarrow> (Inr (strip extracted_text), vlog @ [(image_bytes, mime_type)]))"

definition process_image_with_claude ::
  "'img capabilities \<Rightarrow> bytes \<Rightarrow> string \<Rightarrow> vision_log \<Rightarrow> (py_error + OCRResult) \<times> vision_log" where
  "process_image_with_claude caps file_content mime_type vlog =
     (case optimize_image (pillow caps) file_content of
        Inl e \<Rightarrow> (Inl e, vlog)
      | Inr optimized_image \<Rightarrow>
          (case extract_text_with_claude_vision caps optimized_image mime_type vlog of
             (Inl e, vlog') \<Rightarrow> (Inl e, vlog')
           | (Inr extracted_text, vlog') \<Rightarrow>
               (new_OCRResult (strip extracted_text)
                  (if length extracted_text > 50 then 0.88 else 0.65) 1, vlog')))"

text \<open>
  The loop of \<open>_process_scanned_pdf\<close>, lines 132 to 144, over the images it is given,
  \<open>idx\<close> counting from the number of the first.
\<close>

fun ocr_pages ::
  "'img capabilities \<Rightarrow> 'img list \<Rightarrow> nat \<Rightarrow> string list \<Rightarrow> vision_log
     \<Rightarrow> (py_error + string list) \<times> vision_log" where
  "ocr_pages caps [] idx text_parts vlog = (Inr text_parts, vlog)"
| "ocr_pages caps (img # images) idx text_parts vlog =
     (case save_png (pillow caps) img False of
        Inl e \<Rightarrow> (Inl e, vlog)
      | Inr img_bytes \<Rightarrow>
          (case extract_text_with_claude_vision caps img_bytes PNG vlog of
             (Inl e, vlog') \<Rightarrow> (Inl e, vlog')
           | (Inr page_text, vlog') \<Rightarrow>
               ocr_pages caps images (Suc idx) (text_parts @ [page_marker idx @ page_text]) vlog'))"

text \<open>
  \<open>_process_scanned_pdf\<close>. An \<open>ImportError\<close> anywhere in the body becomes the
  \<open>ValueError\<close> of line 159; anything else is raised again.
\<close>

definition scanned_body ::
  "'img capabilities \<Rightarrow> bytes \<Rightarrow> vision_log \<Rightarrow> (py_error + OCRResult) \<times> vision_log" where
  "scanned_body caps file_content vlog =
     (case pdf2image caps of
        None \<Rightarrow> (Inl ImportError, vlog)
      | Some convert_from_bytes \<Rightarrow>
          (case convert_from_bytes file_content of
             Inl e \<Rightarrow> (Inl e, vlog)
           | Inr images \<Rightarrow>
               (case ocr_pages caps (take 10 images) 1 [] vlog of
                  (Inl e, vlog') \<Rightarrow> (Inl e, vlog')
                | (Inr text_parts, vlog') \<Rightarrow>
                    (let extracted_text = join page_sep text_parts
                     in (new_OCRResult (strip extracted_text)
                           (if length extracted_text > 100 then 0.85 else 0.6)
                           (length images), vlog')))))"

definition process_scanned_pdf ::
  "'img capabilities \<Rightarrow> bytes \<Rightarrow> nat \<Rightarrow> vision_log \<Rightarrow> (py_error + OCRResult) \<times> vision_log" where
  "process_scanned_pdf caps file_content n_pages vlog =
     (case scanned_body caps file_content vlog of
        (Inl ImportError, vlog') \<Rightarrow>
          (Inl (ValueError ''Cannot process scanned PDFs without pdf2image library''), vlog')
      | other \<Rightarrow> other)"

text \<open>The loop of \<open>_process_pdf\<close>, lines 81 to 85: pages without text are skipped.\<close>

fun extract_pages :: "(py_error + string) list \<Rightarrow> nat \<Rightarrow> string list \<Rightarrow> py_error + string list" where
  "extract_pages [] page_num text_parts = Inr text_parts"
| "extract_pages (page # pages) page_num text_parts =
     (case page of
        Inl e \<Rightarrow> Inl e
      | Inr t \<Rightarrow>
          extract_pages pages (Suc page_num)
            (if strip t \<noteq> [] then text_parts @ [page_marker page_num @ t] else text_parts))"

definition process_pdf ::
  "'img capabilities \<Rightarrow> bytes \<Rightarrow> vision_log \<Rightarrow> (py_error + OCRResult) \<times> vision_log" where
  "process_pdf caps file_content vlog =
     (case pdf_reader caps file_content of
        Inl e \<Rightarrow> (Inl e, vlog)
      | Inr pages \<Rightarrow>
          (case extract_pages pages 1 [] of
             Inl e \<Rightarrow> (Inl e, vlog)
           | Inr text_parts \<Rightarrow>
               (let extracted_text = join page_sep text_parts
                in if length (strip extracted_text) < 50
                   then process_scanned_pdf caps file_content (length pages) vlog
                   else (new_OCRResult (strip extracted_text)
                           (if length extracted_text > 100 then 0.95 else 0.7)
                           (length pages), vlog))))"

text \<open>\<open>process_document\<close>, lines 46 to 60: the strategy is chosen by the media type.\<close>

definition process_document ::
  "'img capabilities \<Rightarrow> bytes \<Rightarrow> string \<Rightarrow> string \<Rightarrow> vision_log
     \<Rightarrow> (py_error + OCRResult) \<times> vision_log" where
  "process_document caps file_content file_name mime_type vlog =
     (if mime_type = PDF then process_pdf caps file_content vlog
      else if mime_type \<in> set [PNG, JPEG, JPG]
      then process_image_with_claude caps file_content mime_type vlog
      else (Inl (ValueError (''Unsupported document type: '' @ mime_type)), vlog))"

text \<open>
  The value of \<open>extracted_text\<close> in \<open>_process_pdf\<close> when every page extracts: the text
  of every page that is not blank, each behind the page marker the code puts before it, the
  parts joined by blank lines. It is longer than the native text of the pages by the
  markers and the separators, and it is not yet stripped.
\<close>

definition concatenated_text :: "string list \<Rightarrow> string" where
  "concatenated_text texts =
     join page_sep
       (map (\<lambda>(n, t). page_marker n @ t)
          (filter (\<lambda>(n, t). strip t \<noteq> []) (zip [1 ..< Suc (length texts)] texts)))"

subsection \<open>Collaborators for concrete runs\<close>

text \<open>
  To run the model on a concrete document the collaborators are instantiated: an image is
  its mode and its size, and is encoded as the two bytes of its width and height; an empty
  file does not open; the reader returns the given pages, the rasterizer one image per
  number from 1 to \<open>n\<close>, and the vision model always answers with the given text. Its
  \<open>scale_dim\<close> divides exactly, which is what the double arithmetic of the code gives
  when the ratio is a power of two, as it is wherever the runs below resize.
\<close>

definition stub_pillow :: "(string \<times> nat \<times> nat) pil" where
  "stub_pillow =
     \<lparr> open_image = (\<lambda>b. if b = [] then Inl (OtherError ''cannot identify image file'')
                          else if hd b = 0 then Inr (''RGBA'', 4096, 1024)
                          else Inr (''RGB'', 640, 480)),
       mode_of = fst,
       size_of = snd,
       new_rgb_white = (\<lambda>s. Inr (''RGB'', s)),
       convert_rgba = (\<lambda>i. Inr (''RGBA'', snd i)),
       last_band = (\<lambda>i. Inr (''L'', snd i)),
       paste = (\<lambda>background i mask. Inr background),
       resize_lanczos = (\<lambda>i s. Inr (fst i, s)),
       save_png = (\<lambda>i opt. Inr [of_nat (fst (snd i) div 16), of_nat (snd (snd i) div 16)]),
       scale_dim = (\<lambda>d m. d * 2048 div m) \<rparr>"

definition stub_capabilities ::
  "(py_error + string) list \<Rightarrow> nat \<Rightarrow> string \<Rightarrow> (string \<times> nat \<times> nat) capabilities" where
  "stub_capabilities pages n answer =
     \<lparr> pillow = stub_pillow,
       pdf_reader = (\<lambda>b. Inr pages),
       pdf2image = Some (\<lambda>b. Inr (map (\<lambda>i. (''RGB'', i, i)) [1 ..< Suc n])),
       claude_vision = (\<lambda>vlog b m. Inr answer) \<rparr>"

section \<open>Properties of the date computation\<close>

lemma extract_warranty_dates_None:
  "extract_warranty_dates now None p = Inr (None, None)"
  by (simp add: extract_warranty_dates_def)

lemma extract_warranty_dates_in_range:
  assumes "dates_in_range m d"
  shows "extract_warranty_dates now (Some m) (Some d) = Inr (Some d, Some (plus_days d (m * 30)))"
  using assms
  by (simp add: extract_warranty_dates_def dates_in_range_def timedelta_def
      datetime_add_def plus_days_def Let_def)

lemma extract_warranty_dates_out_of_range:
  assumes "\<not> dates_in_range m d"
  shows "extract_warranty_dates now (Some m) (Some d) = Inl OverflowError"
  using assms
  by (auto simp add: extract_warranty_dates_def dates_in_range_def timedelta_def
      datetime_add_def Let_def)

text \<open>
  Claim C4, as the code has it. A null duration gives \<open>(None, None)\<close> for any purchase
  date. For a duration of \<open>m\<close> months and a purchase date \<open>D\<close> the result is
  \<open>(D, D + 30 m days)\<close> exactly when \<open>30 m\<close> days is a legal timedelta and the expiry date
  is a legal datetime, and \<open>OverflowError\<close> otherwise. With a purchase date given the clock
  is not read: the result is the same for every \<open>now\<close>.
\<close>

theorem extract_warranty_dates_contract:
  "extract_warranty_dates now None p = Inr (None, None) \<and>
   (dates_in_range m D \<longrightarrow>
      extract_warranty_dates now (Some m) (Some D) = Inr (Some D, Some (plus_days D (m * 30)))) \<and>
   (\<not> dates_in_range m D \<longrightarrow>
      extract_warranty_dates now (Some m) (Some D) = Inl OverflowError) \<and>
   extract_warranty_dates now (Some m) (Some D) = extract_warranty_dates now' (Some m) (Some D)"
proof -
  have indep: "extract_warranty_dates now (Some m) (Some D)
      = extract_warranty_dates now' (Some m) (Some D)"
    by (simp add: extract_warranty_dates_def)
  show ?thesis
    using extract_warranty_dates_None extract_warranty_dates_in_range
      extract_warranty_dates_out_of_range indep
    by blast
qed

theorem extract_warranty_dates_contract_witness:
  "dates_in_range 24 \<lparr>ordinal = 738000, micros = 0\<rparr> \<and>
   \<not> dates_in_range 40000000 \<lparr>ordinal = 738000, micros = 0\<rparr> \<and>
   extract_warranty_dates \<lparr>ordinal = 739000, micros = 5\<rparr> None (Some \<lparr>ordinal = 738000, micros = 0\<rparr>)
     = Inr (None, None) \<and>
   extract_warranty_dates \<lparr>ordinal = 739000, micros = 5\<rparr> (Some 24)
       (Some \<lparr>ordinal = 738000, micros = 0\<rparr>)
     = Inr (Some \<lparr>ordinal = 738000, micros = 0\<rparr>, Some \<lparr>ordinal = 738720, micros = 0\<rparr>) \<and>
   extract_warranty_dates \<lparr>ordinal = 739000, micros = 5\<rparr> (Some 40000000)
       (Some \<lparr>ordinal = 738000, micros = 0\<rparr>)
     = Inl OverflowError"
proof -
  have a: "dates_in_range 24 \<lparr>ordinal = 738000, micros = 0\<rparr>"
    by (simp add: dates_in_range_def MAX_DELTA_DAYS_def MAXORDINAL_def)
  have b: "\<not> dates_in_range 40000000 \<lparr>ordinal = 738000, micros = 0\<rparr>"
    by (simp add: dates_in_range_def MAX_DELTA_DAYS_def MAXORDINAL_def)
  have c: "plus_days \<lparr>ordinal = 738000, micros = 0\<rparr> (24 * 30) = \<lparr>ordinal = 738720, micros = 0\<rparr>"
    by (simp add: plus_days_def)
  show ?thesis
    using a b c
      extract_warranty_dates_contract [of "\<lparr>ordinal = 739000, micros = 5\<rparr>"
        "Some \<lparr>ordinal = 738000, micros = 0\<rparr>" 24 "\<lparr>ordinal = 738000, micros = 0\<rparr>"]
      extract_warranty_dates_contract [of "\<lparr>ordinal = 739000, micros = 5\<rparr>"
        "Some \<lparr>ordinal = 738000, micros = 0\<rparr>" 40000000 "\<lparr>ordinal = 738000, micros = 0\<rparr>"]
    by simp
qed

text \<open>
  The claim as the specification words it (every purchase date, every duration, no failure
  mode) fails at the last representable day: 24 months after 9999-12-31 is no datetime.
\<close>

theorem extract_warranty_dates_overflow_counterexample:
  "valid_datetime \<lparr>ordinal = 3652059, micros = 0\<rparr> \<and>
   extract_warranty_dates \<lparr>ordinal = 739000, micros = 0\<rparr> (Some 24)
       (Some \<lparr>ordinal = 3652059, micros = 0\<rparr>)
     = Inl OverflowError"
  by (simp add: extract_warranty_dates_def timedelta_def datetime_add_def valid_datetime_def
      MAX_DELTA_DAYS_def MAXORDINAL_def)

text \<open>
  Claim C10. A zero-month duration is not a null duration: for every purchase date \<open>D\<close>
  the result is \<open>(D, D)\<close>, and \<open>(None, None)\<close> is returned for a null duration only.
\<close>

theorem extract_warranty_dates_zero_months:
  "(valid_datetime D \<longrightarrow> extract_warranty_dates now (Some 0) (Some D) = Inr (Some D, Some D)) \<and>
   (extract_warranty_dates now months purchased = Inr (None, None)
      \<longleftrightarrow> months = None)"
proof -
  have zero: "extract_warranty_dates now (Some 0) (Some D) = Inr (Some D, Some D)"
    if "valid_datetime D"
    using that
    by (simp add: extract_warranty_dates_def timedelta_def datetime_add_def valid_datetime_def
        MAX_DELTA_DAYS_def)
  have only_null: "extract_warranty_dates now months purchased = Inr (None, None)
      \<longleftrightarrow> months = None"
    by (cases months)
      (auto simp add: extract_warranty_dates_def Let_def split: sum.splits)
  show ?thesis using zero only_null by blast
qed

theorem extract_warranty_dates_zero_months_witness:
  "valid_datetime \<lparr>ordinal = 738000, micros = 7\<rparr> \<and>
   extract_warranty_dates \<lparr>ordinal = 739000, micros = 0\<rparr> (Some 0)
       (Some \<lparr>ordinal = 738000, micros = 7\<rparr>)
     = Inr (Some \<lparr>ordinal = 738000, micros = 7\<rparr>, Some \<lparr>ordinal = 738000, micros = 7\<rparr>)"
proof -
  have v: "valid_datetime \<lparr>ordinal = 738000, micros = 7\<rparr>"
    by (simp add: valid_datetime_def MAXORDINAL_def)
  show ?thesis
    using v extract_warranty_dates_zero_months [of "\<lparr>ordinal = 738000, micros = 7\<rparr>"
        "\<lparr>ordinal = 739000, micros = 0\<rparr>" None None]
    by simp
qed

section \<open>Properties of the reply parser\<close>

lemma score_in_range_cases:
  "score_in_range v = Inl TypeError \<or> score_in_range v = Inr True \<or> score_in_range v = Inr False"
  by (cases "as_number v") (auto simp add: score_in_range_def)

lemma confidence_score_populate:
  "confidence_score (populate data) = dict_get data ''confidence_score'' (JFloat (Finite 0.5))"
  by (simp add: populate_def)

lemma parse_analysis_response_undecodable:
  assumes "loads (json_str r) = Inl JSONDecodeError"
  shows "parse_analysis_response loads r lg
    = (Inr failure_response, lg @ [Error_json_parse, Debug_response_text r])"
  using assms by (simp add: parse_analysis_response_def)

lemma parse_analysis_response_other_error:
  assumes "loads (json_str r) = Inl e" and "e \<noteq> JSONDecodeError"
  shows "parse_analysis_response loads r lg = (Inl e, lg)"
  using assms by (cases e) (simp_all add: parse_analysis_response_def)

lemma parse_analysis_response_non_dict:
  assumes "loads (json_str r) = Inr v" and "\<forall>data. v \<noteq> JDict data"
  shows "parse_analysis_response loads r lg = (Inl AttributeError, lg)"
  using assms by (cases v) (simp_all add: parse_analysis_response_def)

lemma parse_analysis_response_dict:
  assumes "loads (json_str r) = Inr (JDict data)"
  shows "parse_analysis_response loads r lg =
    (case score_in_range (confidence_score (populate data)) of
       Inl e \<Rightarrow> (Inl e, lg)
     | Inr True \<Rightarrow> (Inr (populate data), lg)
     | Inr False \<Rightarrow>
         (Inr ((populate data)\<lparr>confidence_score := JFloat (Finite 0.5)\<rparr>),
          lg @ [Warning_invalid_confidence (confidence_score (populate data))]))"
  using assms by (simp add: parse_analysis_response_def Let_def)

text \<open>
  Claim C1 on the code. The parser raises outward on replies the claim names: a payload that
  decodes to anything but an object has no \<open>get\<close> (\<open>AttributeError\<close>), and a
  \<open>confidence_score\<close> that is \<open>null\<close>, a string, a list or an object cannot be compared with
  \<open>0.0\<close> (\<open>TypeError\<close>). Neither is a \<open>JSONDecodeError\<close>, so neither is absorbed, and
  \<open>analyze_warranty\<close> raises it again, whatever the result constructor would do.
\<close>

theorem parse_raises_outward:
  "(loads (json_str r) = Inr v \<and> (\<forall>data. v \<noteq> JDict data) \<longrightarrow>
      parse loads make_result r lg = (Inl AttributeError, lg @ [Error_analyzing AttributeError])) \<and>
   (loads (json_str r) = Inr (JDict data) \<and> map_of data ''confidence_score'' = Some s \<and>
    as_number s = None \<longrightarrow>
      parse loads make_result r lg = (Inl TypeError, lg @ [Error_analyzing TypeError]))"
proof -
  have first: "parse loads make_result r lg
      = (Inl AttributeError, lg @ [Error_analyzing AttributeError])"
    if "loads (json_str r) = Inr v" and "\<forall>data. v \<noteq> JDict data"
    using parse_analysis_response_non_dict [of loads r v lg] that by (simp add: parse_def)
  have second: "parse loads make_result r lg = (Inl TypeError, lg @ [Error_analyzing TypeError])"
    if d: "loads (json_str r) = Inr (JDict data)"
      and s: "map_of data ''confidence_score'' = Some s" and n: "as_number s = None"
  proof -
    have "score_in_range (confidence_score (populate data)) = Inl TypeError"
      using s n by (simp add: confidence_score_populate dict_get_def score_in_range_def)
    then have "parse_analysis_response loads r lg = (Inl TypeError, lg)"
      using d by (simp add: parse_analysis_response_dict)
    then show ?thesis by (simp add: parse_def)
  qed
  show ?thesis using first second by blast
qed

theorem parse_raises_outward_witness:
  "parse (\<lambda>s. if s = ''[]'' then Inr (JList []) else Inl JSONDecodeError) Inr ''[]'' []
     = (Inl AttributeError, [Error_analyzing AttributeError]) \<and>
   parse (\<lambda>s. if s = ''{\"confidence_score\": null}''
               then Inr (JDict [(''confidence_score'', JNull)]) else Inl JSONDecodeError)
       Inr ''{\"confidence_score\": null}'' []
     = (Inl TypeError, [Error_analyzing TypeError])"
proof -
  have a: "json_str ''[]'' = ''[]''"
    by (simp add: json_str_def json_match_def)
  have b: "json_str ''{\"confidence_score\": null}'' = ''{\"confidence_score\": null}''"
    by (simp add: json_str_def json_match_def)
  show ?thesis
    using
      parse_raises_outward [where loads = "\<lambda>s. if s = ''[]'' then Inr (JList []) else Inl JSONDecodeError"
        and r = "''[]''" and v = "JList []" and make_result = Inr and lg = "[]"]
      parse_raises_outward [where loads = "\<lambda>s. if s = ''{\"confidence_score\": null}''
               then Inr (JDict [(''confidence_score'', JNull)]) else Inl JSONDecodeError"
        and r = "''{\"confidence_score\": null}''" and data = "[(''confidence_score'', JNull)]"
        and s = JNull and make_result = Inr and lg = "[]"]
    by (simp add: a b)
qed

text \<open>
  Claim C2 on the code. The validation of the score stops at a score that is not a number:
  for the reply \<open>{"confidence_score": null}\<close>, which decodes, the parser returns no result
  at all, where the claim promises one with the score 0.5.
\<close>

theorem parse_analysis_response_null_score:
  "parse_analysis_response
     (\<lambda>s. if s = ''{\"confidence_score\": null}''
           then Inr (JDict [(''confidence_score'', JNull)]) else Inl JSONDecodeError)
     ''{\"confidence_score\": null}'' []
   = (Inl TypeError, [])"
  by (simp add: parse_analysis_response_def json_str_def json_match_def populate_def
      dict_get_def score_in_range_def)

text \<open>
  What the two tiers of the score do hold. Whenever the parser returns a result, its score
  is a number in \<open>[0, 1]\<close>. A payload that decodes to an object without the key gets the
  default 0.5; one whose score is a number outside \<open>[0, 1]\<close> (NaN and the infinities
  included) gets 0.5 and a warning in the log, every other field as populated. A payload
  that does not decode gives the failure response: the fixed summary, the score 0.1, empty
  collections and \<open>None\<close> for the optional fields.
\<close>

theorem parse_analysis_response_two_tiers:
  "(parse_analysis_response loads r lg = (Inr res, lg') \<longrightarrow>
      score_in_range (confidence_score res) = Inr True) \<and>
   (loads (json_str r) = Inr (JDict data) \<and> map_of data ''confidence_score'' = None \<longrightarrow>
      parse_analysis_response loads r lg = (Inr (populate data), lg) \<and>
      confidence_score (populate data) = JFloat (Finite 0.5)) \<and>
   (loads (json_str r) = Inr (JDict data) \<and> map_of data ''confidence_score'' = Some s \<and>
    score_in_range s = Inr False \<longrightarrow>
      parse_analysis_response loads r lg
        = (Inr ((populate data)\<lparr>confidence_score := JFloat (Finite 0.5)\<rparr>),
           lg @ [Warning_invalid_confidence s])) \<and>
   (loads (json_str r) = Inl JSONDecodeError \<longrightarrow>
      parse_analysis_response loads r lg
        = (Inr failure_response, lg @ [Error_json_parse, Debug_response_text r])) \<and>
   confidence_score failure_response = JFloat (Finite 0.1) \<and>
   summary failure_response = JStr ''Failed to analyze warranty contract'' \<and>
   coverage_items failure_response = JList [] \<and> exclusions failure_response = JList [] \<and>
   limitations failure_response = JList [] \<and> required_docs failure_response = JList [] \<and>
   critical_dates failure_response = JList [] \<and>
   critical_highlights failure_response = JList [] \<and>
   warning_highlights failure_response = JList [] \<and>
   info_highlights failure_response = JList [] \<and>
   claim_contacts failure_response = JDict [] \<and>
   duration failure_response = JNull \<and> duration_months failure_response = JNull \<and>
   claim_procedure failure_response = JNull \<and> transferable failure_response = JNull \<and>
   extended_options failure_response = JNull"
proof -
  have bounded: "score_in_range (confidence_score res) = Inr True"
    if ret: "parse_analysis_response loads r lg = (Inr res, lg')"
  proof (cases "loads (json_str r)")
    case (Inl e)
    show ?thesis
    proof (cases "e = JSONDecodeError")
      case True
      with Inl ret have "res = failure_response"
        by (simp add: parse_analysis_response_undecodable)
      then show ?thesis by (simp add: failure_response_def score_in_range_def)
    next
      case False
      with Inl ret show ?thesis by (simp add: parse_analysis_response_other_error)
    qed
  next
    case (Inr v)
    show ?thesis
    proof (cases "\<exists>d. v = JDict d")
      case True
      then obtain d where v: "v = JDict d" by blast
      show ?thesis
        using ret Inr v score_in_range_cases [of "confidence_score (populate d)"]
        by (auto simp add: parse_analysis_response_dict score_in_range_def)
    next
      case False
      with Inr ret show ?thesis by (simp add: parse_analysis_response_non_dict)
    qed
  qed
  have absent: "parse_analysis_response loads r lg = (Inr (populate data), lg) \<and>
      confidence_score (populate data) = JFloat (Finite 0.5)"
    if "loads (json_str r) = Inr (JDict data)" and "map_of data ''confidence_score'' = None"
    using that
    by (simp add: parse_analysis_response_dict confidence_score_populate dict_get_def
        score_in_range_def)
  have outside: "parse_analysis_response loads r lg
        = (Inr ((populate data)\<lparr>confidence_score := JFloat (Finite 0.5)\<rparr>),
           lg @ [Warning_invalid_confidence s])"
    if "loads (json_str r) = Inr (JDict data)" and "map_of data ''confidence_score'' = Some s"
      and "score_in_range s = Inr False"
    using that
    by (simp add: parse_analysis_response_dict confidence_score_populate dict_get_def)
  have fields: "confidence_score failure_response = JFloat (Finite 0.1) \<and>
   summary failure_response = JStr ''Failed to analyze warranty contract'' \<and>
   coverage_items failure_response = JList [] \<and> exclusions failure_response = JList [] \<and>
   limitations failure_response = JList [] \<and> required_docs failure_response = JList [] \<and>
   critical_dates failure_response = JList [] \<and>
   critical_highlights failure_response = JList [] \<and>
   warning_highlights failure_response = JList [] \<and>
   info_highlights failure_response = JList [] \<and>
   claim_contacts failure_response = JDict [] \<and>
   duration failure_response = JNull \<and> duration_months failure_response = JNull \<and>
   claim_procedure failure_response = JNull \<and> transferable failure_response = JNull \<and>
   extended_options failure_response = JNull"
    by (simp add: failure_response_def)
  show ?thesis
    using bounded absent outside fields parse_analysis_response_undecodable [of loads r lg]
    by blast
qed

theorem parse_analysis_response_two_tiers_witness:
  "parse_analysis_response
     (\<lambda>s. if s = ''{\"confidence_score\": 1.7}''
           then Inr (JDict [(''confidence_score'', JFloat (Finite 1.7))])
           else if s = ''{}'' then Inr (JDict []) else Inl JSONDecodeError)
     ''{\"confidence_score\": 1.7}'' []
     = (Inr ((populate [(''confidence_score'', JFloat (Finite 1.7))])
               \<lparr>confidence_score := JFloat (Finite 0.5)\<rparr>),
        [Warning_invalid_confidence (JFloat (Finite 1.7))]) \<and>
   parse_analysis_response
     (\<lambda>s. if s = ''{\"confidence_score\": 1.7}''
           then Inr (JDict [(''confidence_score'', JFloat (Finite 1.7))])
           else if s = ''{}'' then Inr (JDict []) else Inl JSONDecodeError)
     ''Here you go: {}'' []
     = (Inr (populate []), []) \<and>
   confidence_score (populate []) = JFloat (Finite 0.5) \<and>
   parse_analysis_response
     (\<lambda>s. if s = ''{\"confidence_score\": 1.7}''
           then Inr (JDict [(''confidence_score'', JFloat (Finite 1.7))])
           else if s = ''{}'' then Inr (JDict []) else Inl JSONDecodeError)
     ''Sorry, I cannot process this.'' []
     = (Inr failure_response,
        [Error_json_parse, Debug_response_text ''Sorry, I cannot process this.'']) \<and>
   score_in_range (confidence_score failure_response) = Inr True"
proof -
  let ?loads = "\<lambda>s. if s = ''{\"confidence_score\": 1.7}''
           then Inr (JDict [(''confidence_score'', JFloat (Finite 1.7))])
           else if s = ''{}'' then Inr (JDict []) else Inl JSONDecodeError"
  have a: "json_str ''{\"confidence_score\": 1.7}'' = ''{\"confidence_score\": 1.7}''"
    by (simp add: json_str_def json_match_def)
  have b: "json_str ''Here you go: {}'' = ''{}''"
    by (simp add: json_str_def json_match_def)
  have c: "json_str ''Sorry, I cannot process this.'' = ''Sorry, I cannot process this.''"
    by (simp add: json_str_def json_match_def)
  have d: "score_in_range (JFloat (Finite 1.7)) = Inr False"
    by (simp add: score_in_range_def)
  have t1: "parse_analysis_response ?loads ''{\"confidence_score\": 1.7}'' []
     = (Inr ((populate [(''confidence_score'', JFloat (Finite 1.7))])
               \<lparr>confidence_score := JFloat (Finite 0.5)\<rparr>),
        [Warning_invalid_confidence (JFloat (Finite 1.7))])"
    using parse_analysis_response_two_tiers [where loads = ?loads
        and r = "''{\"confidence_score\": 1.7}''" and lg = "[]"
        and data = "[(''confidence_score'', JFloat (Finite 1.7))]"
        and s = "JFloat (Finite 1.7)"] d
    by (simp add: a)
  have t2: "parse_analysis_response ?loads ''Here you go: {}'' [] = (Inr (populate []), []) \<and>
      confidence_score (populate []) = JFloat (Finite 0.5)"
    using parse_analysis_response_two_tiers [where loads = ?loads
        and r = "''Here you go: {}''" and lg = "[]" and data = "[]"]
    by (simp add: b)
  have t3: "parse_analysis_response ?loads ''Sorry, I cannot process this.'' []
     = (Inr failure_response,
        [Error_json_parse, Debug_response_text ''Sorry, I cannot process this.''])"
    using parse_analysis_response_two_tiers [where loads = ?loads
        and r = "''Sorry, I cannot process this.''" and lg = "[]"]
    by (simp add: c)
  have t4: "score_in_range (confidence_score failure_response) = Inr True"
    using t3 parse_analysis_response_two_tiers [where loads = ?loads
        and r = "''Sorry, I cannot process this.''" and lg = "[]" and res = failure_response
        and lg' = "[Error_json_parse, Debug_response_text ''Sorry, I cannot process this.'']",
        THEN conjunct1]
    by simp
  show ?thesis using t1 t2 t3 t4 by simp
qed

section \<open>Properties of text acquisition\<close>

lemma strip_idem: "strip (strip s) = strip s"
proof -
  define a where "a = dropWhile isspace s"
  define b where "b = rev (dropWhile isspace (rev a))"
  have head: "dropWhile isspace b = b"
  proof (cases "b = []")
    case True
    then show ?thesis by simp
  next
    case False
    then have ne: "dropWhile isspace (rev a) \<noteq> []" by (simp add: b_def)
    have "rev a = takeWhile isspace (rev a) @ dropWhile isspace (rev a)" by simp
    then have "a = b @ rev (takeWhile isspace (rev a))"
      by (metis b_def rev_append rev_rev_ident)
    with False have "hd b = hd a" by (metis hd_append2)
    moreover have "a \<noteq> []" using ne by auto
    then have "\<not> isspace (hd a)" unfolding a_def by (metis hd_dropWhile)
    ultimately show ?thesis using False by (cases b) auto
  qed
  have "strip (strip s) = rev (dropWhile isspace (rev (dropWhile isspace b)))"
    by (simp add: strip_def a_def b_def)
  also have "\<dots> = rev (dropWhile isspace (rev b))" by (simp add: head)
  also have "\<dots> = b" by (simp add: b_def dropWhile_idem)
  finally show ?thesis by (simp add: strip_def a_def b_def)
qed

lemma new_OCRResult_Inr:
  assumes "new_OCRResult t c n = Inr res"
  shows "0 \<le> c \<and> c \<le> 1 \<and> res = \<lparr>ocr_text = t, confidence = c, page_count = n\<rparr>"
  using assms by (auto simp add: new_OCRResult_def split: if_splits)

lemma new_OCRResult_ok:
  assumes "0 \<le> c" and "c \<le> 1"
  shows "new_OCRResult t c n = Inr \<lparr>ocr_text = t, confidence = c, page_count = n\<rparr>"
  using assms by (simp add: new_OCRResult_def)

lemma extract_text_log:
  "snd (extract_text_with_claude_vision caps b m vlog) = vlog @ [(b, m)]"
  by (simp add: extract_text_with_claude_vision_def split: sum.splits)

lemma extract_text_Inr:
  assumes "extract_text_with_claude_vision caps b m vlog = (Inr t, vlog')"
  shows "strip t = t \<and> vlog' = vlog @ [(b, m)]"
  using assms
  by (auto simp add: extract_text_with_claude_vision_def strip_idem split: sum.splits)

lemma ocr_pages_requests:
  assumes "ocr_pages caps imgs idx parts vlog = (Inr parts', vlog')"
  shows "\<exists>pngs. map (\<lambda>i. save_png (pillow caps) i False) imgs = map Inr pngs \<and>
               vlog' = vlog @ map (\<lambda>b. (b, PNG)) pngs"
  using assms
proof (induction imgs arbitrary: idx parts vlog)
  case Nil
  then show ?case by simp
next
  case (Cons i imgs)
  from Cons.prems obtain b where b: "save_png (pillow caps) i False = Inr b"
    by (cases "save_png (pillow caps) i False") auto
  obtain r v1 where ex: "extract_text_with_claude_vision caps b PNG vlog = (r, v1)"
    by (cases "extract_text_with_claude_vision caps b PNG vlog")
  from Cons.prems b ex obtain t where t: "r = Inr t"
    by (cases r) auto
  have v1: "v1 = vlog @ [(b, PNG)]"
    using extract_text_log [of caps b PNG vlog] ex by simp
  from Cons.prems b ex t
  have "ocr_pages caps imgs (Suc idx) (parts @ [page_marker idx @ t]) v1 = (Inr parts', vlog')"
    by simp
  from Cons.IH [OF this] obtain pngs where
    p: "map (\<lambda>i. save_png (pillow caps) i False) imgs = map Inr pngs"
    and v: "vlog' = v1 @ map (\<lambda>b. (b, PNG)) pngs"
    by blast
  have "map (\<lambda>i. save_png (pillow caps) i False) (i # imgs) = map Inr (b # pngs) \<and>
      vlog' = vlog @ map (\<lambda>b. (b, PNG)) (b # pngs)"
    using p v v1 b by simp
  then show ?case by blast
qed

lemma ocr_pages_log_length:
  "length (snd (ocr_pages caps imgs idx parts vlog)) \<le> length vlog + length imgs"
proof (induction imgs arbitrary: idx parts vlog)
  case Nil
  then show ?case by simp
next
  case (Cons i imgs)
  show ?case
  proof (cases "save_png (pillow caps) i False")
    case (Inl e)
    then show ?thesis by simp
  next
    case (Inr b)
    obtain r v1 where ex: "extract_text_with_claude_vision caps b PNG vlog = (r, v1)"
      by (cases "extract_text_with_claude_vision caps b PNG vlog")
    have v1: "length v1 = Suc (length vlog)"
      using extract_text_log [of caps b PNG vlog] ex by simp
    show ?thesis
    proof (cases r)
      case (Inl e)
      with Inr ex v1 show ?thesis by simp
    next
      case (Inr t)
      have "length (snd (ocr_pages caps imgs (Suc idx) (parts @ [page_marker idx @ t]) v1))
          \<le> length v1 + length imgs"
        by (rule Cons.IH)
      with \<open>save_png (pillow caps) i False = Inr b\<close> ex Inr v1 show ?thesis by simp
    qed
  qed
qed

lemma scanned_body_Inr:
  assumes "scanned_body caps content vlog = (Inr res, vlog')"
  shows "\<exists>conv images parts.
     pdf2image caps = Some conv \<and> conv content = Inr images \<and>
     ocr_pages caps (take 10 images) 1 [] vlog = (Inr parts, vlog') \<and>
     res = \<lparr>ocr_text = strip (join page_sep parts),
            confidence = (if length (join page_sep parts) > 100 then 0.85 else 0.6),
            page_count = length images\<rparr>"
proof -
  from assms obtain conv where c: "pdf2image caps = Some conv"
    by (cases "pdf2image caps") (auto simp add: scanned_body_def)
  from assms c obtain images where i: "conv content = Inr images"
    by (cases "conv content") (auto simp add: scanned_body_def)
  obtain r v1 where o: "ocr_pages caps (take 10 images) 1 [] vlog = (r, v1)"
    by (cases "ocr_pages caps (take 10 images) 1 [] vlog")
  from assms c i o obtain parts where p: "r = Inr parts"
    by (cases r) (auto simp add: scanned_body_def)
  from assms c i o p
  have n: "new_OCRResult (strip (join page_sep parts))
      (if length (join page_sep parts) > 100 then 0.85 else 0.6) (length images) = Inr res"
    and v: "v1 = vlog'"
    by (simp_all add: scanned_body_def Let_def)
  from new_OCRResult_Inr [OF n] c i o p v show ?thesis by blast
qed

lemma scanned_body_log_length:
  "length (snd (scanned_body caps content vlog)) \<le> length vlog + 10"
proof (cases "pdf2image caps")
  case None
  then show ?thesis by (simp add: scanned_body_def)
next
  case (Some conv)
  show ?thesis
  proof (cases "conv content")
    case (Inl e)
    with Some show ?thesis by (simp add: scanned_body_def)
  next
    case (Inr images)
    obtain r v1 where o: "ocr_pages caps (take 10 images) 1 [] vlog = (r, v1)"
      by (cases "ocr_pages caps (take 10 images) 1 [] vlog")
    have "length v1 \<le> length vlog + length (take 10 images)"
      using ocr_pages_log_length [of caps "take 10 images" 1 "[]" vlog] o by simp
    then have "length v1 \<le> length vlog + 10" by simp
    with Some Inr o show ?thesis
      by (cases r) (simp_all add: scanned_body_def Let_def)
  qed
qed

lemma process_scanned_pdf_Inr:
  assumes "process_scanned_pdf caps content n vlog = (Inr res, vlog')"
  shows "scanned_body caps content vlog = (Inr res, vlog')"
proof -
  obtain r v1 where b: "scanned_body caps content vlog = (r, v1)"
    by (cases "scanned_body caps content vlog")
  show ?thesis
  proof (cases r)
    case (Inl e)
    with assms b show ?thesis
      by (cases e) (simp_all add: process_scanned_pdf_def)
  next
    case (Inr x)
    with assms b show ?thesis by (simp add: process_scanned_pdf_def)
  qed
qed

lemma process_scanned_pdf_log:
  "snd (process_scanned_pdf caps content n vlog) = snd (scanned_body caps content vlog)"
proof -
  obtain r v1 where b: "scanned_body caps content vlog = (r, v1)"
    by (cases "scanned_body caps content vlog")
  show ?thesis
  proof (cases r)
    case (Inl e)
    with b show ?thesis by (cases e) (simp_all add: process_scanned_pdf_def)
  next
    case (Inr x)
    with b show ?thesis by (simp add: process_scanned_pdf_def)
  qed
qed

lemma extract_pages_texts:
  "extract_pages (map Inr texts) k parts =
     Inr (parts @ map (\<lambda>(n, t). page_marker n @ t)
            (filter (\<lambda>(n, t). strip t \<noteq> []) (zip [k ..< k + length texts] texts)))"
proof (induction texts arbitrary: k parts)
  case Nil
  then show ?case by simp
next
  case (Cons t texts)
  have u: "[k ..< k + length (t # texts)] = k # [Suc k ..< Suc k + length texts]"
    by (simp add: upt_rec)
  show ?case
    unfolding u using Cons.IH [of "Suc k"] by simp
qed

lemma extract_pages_concatenated:
  "extract_pages (map Inr texts) 1 [] = Inr parts \<Longrightarrow> join page_sep parts = concatenated_text texts"
  by (simp add: extract_pages_texts concatenated_text_def)

lemma process_pdf_texts:
  assumes "pdf_reader caps content = Inr (map Inr texts)"
  shows "process_pdf caps content vlog =
    (if length (strip (concatenated_text texts)) < 50
     then process_scanned_pdf caps content (length texts) vlog
     else (Inr \<lparr>ocr_text = strip (concatenated_text texts),
                confidence = (if length (concatenated_text texts) > 100 then 0.95 else 0.7),
                page_count = length texts\<rparr>, vlog))"
  using assms
  by (simp add: process_pdf_def extract_pages_texts concatenated_text_def Let_def
      new_OCRResult_def)

lemma process_pdf_Inr_confidence:
  assumes "process_pdf caps content vlog = (Inr res, vlog')"
  shows "0 \<le> confidence res \<and> confidence res \<le> 1"
proof -
  from assms obtain pages where r: "pdf_reader caps content = Inr pages"
    by (cases "pdf_reader caps content") (auto simp add: process_pdf_def)
  from assms r obtain parts where e: "extract_pages pages 1 [] = Inr parts"
    by (cases "extract_pages pages 1 []") (auto simp add: process_pdf_def)
  show ?thesis
  proof (cases "length (strip (join page_sep parts)) < 50")
    case True
    with assms r e have "process_scanned_pdf caps content (length pages) vlog = (Inr res, vlog')"
      by (simp add: process_pdf_def Let_def)
    from scanned_body_Inr [OF process_scanned_pdf_Inr [OF this]] show ?thesis by auto
  next
    case False
    with assms r e have "new_OCRResult (strip (join page_sep parts))
        (if length (join page_sep parts) > 100 then 0.95 else 0.7) (length pages) = Inr res"
      by (simp add: process_pdf_def Let_def)
    from new_OCRResult_Inr [OF this] show ?thesis by auto
  qed
qed

lemma process_image_Inr:
  assumes "process_image_with_claude caps content mime vlog = (Inr res, vlog')"
  shows "confidence res = (if length (ocr_text res) > 50 then 0.88 else 0.65) \<and>
         page_count res = 1 \<and> length vlog' = Suc (length vlog)"
proof -
  obtain opt where opt: "optimize_image (pillow caps) content = Inr opt"
    by (cases "optimize_steps (pillow caps) content") (simp_all add: optimize_image_def)
  obtain r v1 where ex: "extract_text_with_claude_vision caps opt mime vlog = (r, v1)"
    by (cases "extract_text_with_claude_vision caps opt mime vlog")
  from assms opt ex obtain t where t: "r = Inr t"
    by (cases r) (auto simp add: process_image_with_claude_def)
  from extract_text_Inr [of caps opt mime vlog t v1] ex t
  have st: "strip t = t" and v1: "v1 = vlog @ [(opt, mime)]" by simp_all
  from assms opt ex t
  have n: "new_OCRResult (strip t) (if length t > 50 then 0.88 else 0.65) 1 = Inr res"
    and v: "v1 = vlog'"
    by (simp_all add: process_image_with_claude_def)
  from new_OCRResult_Inr [OF n] st v v1 show ?thesis by auto
qed

text \<open>
  Claim C7. A media type that is none of the four strings, compared exactly, gives the
  \<open>ValueError\<close> for an unsupported document type. Nothing is attempted before it: the
  result is the same for every set of collaborators and no request reaches the vision
  model. Each of the four strings selects its own strategy.
\<close>

theorem process_document_unsupported:
  "(mime \<noteq> ''application/pdf'' \<and> mime \<noteq> ''image/png'' \<and> mime \<noteq> ''image/jpeg'' \<and>
    mime \<noteq> ''image/jpg'' \<longrightarrow>
      process_document caps content file_name mime vlog
        = (Inl (ValueError (''Unsupported document type: '' @ mime)), vlog)) \<and>
   process_document caps content file_name ''application/pdf'' vlog
     = process_pdf caps content vlog \<and>
   process_document caps content file_name ''image/png'' vlog
     = process_image_with_claude caps content ''image/png'' vlog \<and>
   process_document caps content file_name ''image/jpeg'' vlog
     = process_image_with_claude caps content ''image/jpeg'' vlog \<and>
   process_document caps content file_name ''image/jpg'' vlog
     = process_image_with_claude caps content ''image/jpg'' vlog"
  by (simp add: process_document_def PDF_def PNG_def JPEG_def JPG_def)

theorem process_document_unsupported_witness:
  "process_document (stub_capabilities [] 3 ''text'') [1, 2] ''scan.gif'' ''image/gif'' []
     = (Inl (ValueError ''Unsupported document type: image/gif''), []) \<and>
   process_document (stub_capabilities [] 3 ''text'') [1, 2] ''scan.pdf'' ''Application/PDF'' []
     = (Inl (ValueError ''Unsupported document type: Application/PDF''), []) \<and>
   process_document (stub_capabilities [] 3 ''text'') [1, 2] ''scan'' [] []
     = (Inl (ValueError ''Unsupported document type: ''), [])"
  using
    process_document_unsupported [of "''image/gif''" "stub_capabilities [] 3 ''text''" "[1, 2]"
      "''scan.gif''" "[]"]
    process_document_unsupported [of "''Application/PDF''" "stub_capabilities [] 3 ''text''"
      "[1, 2]" "''scan.pdf''" "[]"]
    process_document_unsupported [of "[]" "stub_capabilities [] 3 ''text''" "[1, 2]"
      "''scan''" "[]"]
  by simp

text \<open>
  Claim C3, as the code has it. When a scanned PDF is processed with success, the requests
  sent to the vision model are the PNG encodings of the first ten rasterized images, in
  order, and no others; but the page count returned is the number of all rasterized images,
  not of those sent. Whatever happens, at most ten requests are made.
\<close>

theorem process_scanned_pdf_page_cap:
  "(pdf2image caps = Some conv \<and> conv content = Inr images \<and>
    process_scanned_pdf caps content n vlog = (Inr res, vlog') \<longrightarrow>
      page_count res = length images \<and>
      (\<exists>pngs. map (\<lambda>i. save_png (pillow caps) i False) (take 10 images) = map Inr pngs \<and>
              vlog' = vlog @ map (\<lambda>b. (b, ''image/png'')) pngs) \<and>
      length vlog' = length vlog + min 10 (length images)) \<and>
   length (snd (process_scanned_pdf caps content n vlog)) \<le> length vlog + 10"
proof -
  have ok: "page_count res = length images \<and>
      (\<exists>pngs. map (\<lambda>i. save_png (pillow caps) i False) (take 10 images) = map Inr pngs \<and>
              vlog' = vlog @ map (\<lambda>b. (b, ''image/png'')) pngs) \<and>
      length vlog' = length vlog + min 10 (length images)"
    if c: "pdf2image caps = Some conv" and i: "conv content = Inr images"
      and r: "process_scanned_pdf caps content n vlog = (Inr res, vlog')"
  proof -
    from scanned_body_Inr [OF process_scanned_pdf_Inr [OF r]] c i
    obtain parts where o: "ocr_pages caps (take 10 images) 1 [] vlog = (Inr parts, vlog')"
      and pc: "page_count res = length images"
      by auto
    from ocr_pages_requests [OF o] obtain pngs where
      p: "map (\<lambda>i. save_png (pillow caps) i False) (take 10 images) = map Inr pngs"
      and v: "vlog' = vlog @ map (\<lambda>b. (b, ''image/png'')) pngs"
      by (auto simp add: PNG_def)
    have "length pngs = length (take 10 images)"
      using p by (metis length_map)
    then have "length vlog' = length vlog + min 10 (length images)"
      using v by (simp add: min.commute)
    with pc p v show ?thesis by blast
  qed
  have cap: "length (snd (process_scanned_pdf caps content n vlog)) \<le> length vlog + 10"
    by (simp add: process_scanned_pdf_log scanned_body_log_length)
  show ?thesis using ok cap by blast
qed

lemma stub_scanned_15:
  "map_prod (map_sum id page_count) length
     (process_scanned_pdf (stub_capabilities [] 15 ''text'') [1, 2] 15 []) = (Inr 15, 10)"
  by (simp add: process_scanned_pdf_def scanned_body_def stub_capabilities_def stub_pillow_def
      upt_rec extract_text_with_claude_vision_def new_OCRResult_def)

theorem process_scanned_pdf_page_cap_witness:
  "\<exists>res vlog'.
     process_scanned_pdf (stub_capabilities [] 15 ''text'') [1, 2] 15 [] = (Inr res, vlog') \<and>
     page_count res = 15 \<and> length vlog' = 10"
proof -
  obtain r v where run: "process_scanned_pdf (stub_capabilities [] 15 ''text'') [1, 2] 15 [] = (r, v)"
    by (cases "process_scanned_pdf (stub_capabilities [] 15 ''text'') [1, 2] 15 []")
  with stub_scanned_15 obtain res where res: "r = Inr res"
    by (cases r) auto
  have c: "pdf2image (stub_capabilities [] 15 ''text'')
      = Some (\<lambda>b. Inr (map (\<lambda>i. (''RGB'', i, i)) [1 ..< Suc 15]))"
    by (simp add: stub_capabilities_def)
  have "page_count res = length (map (\<lambda>i. (''RGB'', i, i)) [1 ..< Suc 15]) \<and>
      length v = length ([] :: vision_log)
        + min 10 (length (map (\<lambda>i. (''RGB'', i, i)) [1 ..< Suc 15]))"
    using process_scanned_pdf_page_cap [of "stub_capabilities [] 15 ''text''"
        "\<lambda>b. Inr (map (\<lambda>i. (''RGB'', i, i)) [1 ..< Suc 15])" "[1, 2]"
        "map (\<lambda>i. (''RGB'', i, i)) [1 ..< Suc 15]" 15 "[]" res v] c run res
    by blast
  then have "page_count res = 15 \<and> length v = 10" by simp
  with run res show ?thesis by blast
qed

text \<open>
  The claim as the specification words it fails on its own example: a scanned PDF of 15
  pages is reported with 15 pages, although 10 images were sent.
\<close>

theorem process_scanned_pdf_page_count_counterexample:
  "map_prod (map_sum id page_count) length
     (process_scanned_pdf (stub_capabilities [] 15 ''text'') [1, 2] 15 []) = (Inr 15, 10) \<and>
   (15 :: nat) \<noteq> 10"
  by (simp add: process_scanned_pdf_def scanned_body_def stub_capabilities_def stub_pillow_def
      upt_rec extract_text_with_claude_vision_def new_OCRResult_def)

text \<open>
  Claim C5, as the code has it. The threshold is not on the native text of the pages but on
  \<open>extracted_text\<close>, the concatenation of the non-blank pages' texts with the page
  markers and the separators the code adds. When the stripped length of that concatenation
  is under 50 the result of \<open>_process_pdf\<close> is the result of the OCR path, whatever that
  is; from 50 on it is the native extraction, with the native page count.
\<close>

theorem process_pdf_path_selection:
  "pdf_reader caps content = Inr (map Inr texts) \<longrightarrow>
     (length (strip (concatenated_text texts)) < 50 \<longrightarrow>
        process_pdf caps content vlog
          = process_scanned_pdf caps content (length texts) vlog) \<and>
     (50 \<le> length (strip (concatenated_text texts)) \<longrightarrow>
        process_pdf caps content vlog
          = (Inr \<lparr>ocr_text = strip (concatenated_text texts),
                  confidence = (if length (concatenated_text texts) > 100 then 0.95 else 0.7),
                  page_count = length texts\<rparr>, vlog))"
  using process_pdf_texts [of caps content texts vlog] by simp

lemma concatenated_short: "concatenated_text [''Warranty''] = ''--- Page 1 ---'' @ [NL] @ ''Warranty''"
  by (simp add: concatenated_text_def strip_def isspace_def page_marker_def str_nat.simps
      digit_char_def)

lemma concatenated_long:
  "concatenated_text [''LIMITED WARRANTY: 24 months from date of purchase.  '']
     = ''--- Page 1 ---'' @ [NL] @ ''LIMITED WARRANTY: 24 months from date of purchase.  ''"
  by (simp add: concatenated_text_def strip_def isspace_def page_marker_def str_nat.simps
      digit_char_def)

theorem process_pdf_path_selection_witness:
  "process_pdf (stub_capabilities [Inr ''Warranty''] 1 ''text'') [1, 2] []
     = process_scanned_pdf (stub_capabilities [Inr ''Warranty''] 1 ''text'') [1, 2] 1 [] \<and>
   process_pdf
       (stub_capabilities [Inr ''LIMITED WARRANTY: 24 months from date of purchase.  ''] 1 ''text'')
       [1, 2] []
     = (Inr \<lparr>ocr_text =
               ''--- Page 1 ---'' @ [NL] @ ''LIMITED WARRANTY: 24 months from date of purchase.'',
             confidence = 0.7, page_count = 1\<rparr>, [])"
proof -
  have r1: "pdf_reader (stub_capabilities [Inr ''Warranty''] 1 ''text'') [1, 2]
      = Inr (map Inr [''Warranty''])"
    by (simp add: stub_capabilities_def)
  have s1: "length (strip (concatenated_text [''Warranty''])) < 50"
    by (simp add: concatenated_short strip_def isspace_def NL_def)
  have r2: "pdf_reader
      (stub_capabilities [Inr ''LIMITED WARRANTY: 24 months from date of purchase.  ''] 1 ''text'')
      [1, 2]
      = Inr (map Inr [''LIMITED WARRANTY: 24 months from date of purchase.  ''])"
    by (simp add: stub_capabilities_def)
  have s2: "strip (concatenated_text [''LIMITED WARRANTY: 24 months from date of purchase.  ''])
      = ''--- Page 1 ---'' @ [NL] @ ''LIMITED WARRANTY: 24 months from date of purchase.''"
    by (simp add: concatenated_long strip_def isspace_def NL_def)
  have l2: "length (concatenated_text [''LIMITED WARRANTY: 24 months from date of purchase.  ''])
      = 67"
    by (simp add: concatenated_long)
  show ?thesis
    using
      process_pdf_path_selection [of "stub_capabilities [Inr ''Warranty''] 1 ''text''" "[1, 2]"
        "[''Warranty'']" "[]"]
      process_pdf_path_selection [of
        "stub_capabilities [Inr ''LIMITED WARRANTY: 24 months from date of purchase.  ''] 1 ''text''"
        "[1, 2]" "[''LIMITED WARRANTY: 24 months from date of purchase.  '']" "[]"]
      r1 s1 r2 s2 l2
    by simp
qed

text \<open>
  The claim as the specification words it, with the threshold on the native text of the
  pages, fails: a one-page PDF whose text has 35 characters is measured at 50, the 15
  characters of its page marker included, and is returned natively, with no request to the
  vision model.
\<close>

theorem process_pdf_native_text_counterexample:
  "length (strip ''Warranty: 24 months after purchase.'') = 35 \<and> (35 :: nat) < 50 \<and>
   process_pdf (stub_capabilities [Inr ''Warranty: 24 months after purchase.''] 1 ''text'') [1, 2] []
     = (Inr \<lparr>ocr_text = ''--- Page 1 ---'' @ [NL] @ ''Warranty: 24 months after purchase.'',
             confidence = 0.7, page_count = 1\<rparr>, [])"
  by (simp add: process_pdf_def stub_capabilities_def page_marker_def page_sep_def
      str_nat.simps digit_char_def NL_def strip_def isspace_def new_OCRResult_def)

text \<open>
  Claim C6, as the code has it. Every result of \<open>process_document\<close> has a confidence in
  \<open>[0, 1]\<close>. On the two PDF paths the confidence is computed from the length of the text
  before it is stripped for the result, not from the length of the text returned: on the
  native path it is 0.95 when the concatenation of the pages' texts, markers included, has
  more than 100 characters and 0.7 otherwise; on the OCR path it is 0.85 when the joined
  page texts, markers included, have more than 100 characters and 0.6 otherwise. For a
  single image it is 0.88 when the text returned has more than 50 characters and 0.65
  otherwise.
\<close>

theorem process_document_confidence:
  "(process_document caps content file_name mime vlog = (Inr res, vlog') \<longrightarrow>
      0 \<le> confidence res \<and> confidence res \<le> 1) \<and>
   (pdf_reader caps content = Inr (map Inr texts) \<and>
    50 \<le> length (strip (concatenated_text texts)) \<longrightarrow>
      (\<exists>r. process_document caps content file_name ''application/pdf'' vlog = (Inr r, vlog) \<and>
           ocr_text r = strip (concatenated_text texts) \<and>
           confidence r = (if length (concatenated_text texts) > 100 then 0.95 else 0.7))) \<and>
   (pdf_reader caps content = Inr (map Inr texts) \<and>
    length (strip (concatenated_text texts)) < 50 \<and>
    process_document caps content file_name ''application/pdf'' vlog = (Inr res, vlog') \<longrightarrow>
      (\<exists>conv images parts.
         pdf2image caps = Some conv \<and> conv content = Inr images \<and>
         ocr_pages caps (take 10 images) 1 [] vlog = (Inr parts, vlog') \<and>
         ocr_text res = strip (join page_sep parts) \<and>
         confidence res = (if length (join page_sep parts) > 100 then 0.85 else 0.6))) \<and>
   ((mime = ''image/png'' \<or> mime = ''image/jpeg'' \<or> mime = ''image/jpg'') \<and>
    process_document caps content file_name mime vlog = (Inr res, vlog') \<longrightarrow>
      confidence res = (if length (ocr_text res) > 50 then 0.88 else 0.65))"
proof -
  have img: "confidence res = (if length (ocr_text res) > 50 then 0.88 else 0.65)"
    if "mime = ''image/png'' \<or> mime = ''image/jpeg'' \<or> mime = ''image/jpg''"
      and "process_document caps content file_name mime vlog = (Inr res, vlog')"
  proof -
    from that have "process_image_with_claude caps content mime vlog = (Inr res, vlog')"
      by (auto simp add: process_document_def PDF_def PNG_def JPEG_def JPG_def)
    from process_image_Inr [OF this] show ?thesis by simp
  qed
  have bounds: "0 \<le> confidence res \<and> confidence res \<le> 1"
    if r: "process_document caps content file_name mime vlog = (Inr res, vlog')"
  proof (cases "mime = PDF")
    case True
    with r have "process_pdf caps content vlog = (Inr res, vlog')"
      by (simp add: process_document_def)
    from process_pdf_Inr_confidence [OF this] show ?thesis .
  next
    case False
    with r have m: "mime = ''image/png'' \<or> mime = ''image/jpeg'' \<or> mime = ''image/jpg''"
      by (auto simp add: process_document_def PNG_def JPEG_def JPG_def split: if_splits)
    from img [OF m r] show ?thesis by (simp split: if_splits)
  qed
  have native: "\<exists>r. process_document caps content file_name ''application/pdf'' vlog = (Inr r, vlog) \<and>
           ocr_text r = strip (concatenated_text texts) \<and>
           confidence r = (if length (concatenated_text texts) > 100 then 0.95 else 0.7)"
    if "pdf_reader caps content = Inr (map Inr texts)"
      and "50 \<le> length (strip (concatenated_text texts))"
    using that process_pdf_texts [of caps content texts vlog]
    by (simp add: process_document_def PDF_def)
  have scanned: "\<exists>conv images parts.
         pdf2image caps = Some conv \<and> conv content = Inr images \<and>
         ocr_pages caps (take 10 images) 1 [] vlog = (Inr parts, vlog') \<and>
         ocr_text res = strip (join page_sep parts) \<and>
         confidence res = (if length (join page_sep parts) > 100 then 0.85 else 0.6)"
    if t: "pdf_reader caps content = Inr (map Inr texts)"
      and s: "length (strip (concatenated_text texts)) < 50"
      and r: "process_document caps content file_name ''application/pdf'' vlog = (Inr res, vlog')"
  proof -
    from r have "process_pdf caps content vlog = (Inr res, vlog')"
      by (simp add: process_document_def PDF_def)
    with s process_pdf_texts [OF t, of vlog]
    have "process_scanned_pdf caps content (length texts) vlog = (Inr res, vlog')"
      by simp
    from scanned_body_Inr [OF process_scanned_pdf_Inr [OF this]] show ?thesis
      by auto
  qed
  show ?thesis using bounds native scanned img by blast
qed

lemma stub_image_run:
  "process_document (stub_capabilities [] 1 ''text'') [7] ''w.png'' ''image/png'' []
     = (Inr \<lparr>ocr_text = ''text'', confidence = 0.65, page_count = 1\<rparr>,
        [([40, 30], ''image/png'')])"
  by (simp add: process_document_def PDF_def PNG_def process_image_with_claude_def
      optimize_image_def optimize_steps_def bind_err_def flatten_def bound_size_def
      max_dimension_def stub_capabilities_def stub_pillow_def
      extract_text_with_claude_vision_def strip_def isspace_def new_OCRResult_def)

lemma stub_scanned_run:
  "process_document (stub_capabilities [Inr ''Warranty''] 1 ''text'') [1, 2] ''s.pdf''
       ''application/pdf'' []
     = (Inr \<lparr>ocr_text = ''--- Page 1 ---'' @ [NL] @ ''text'', confidence = 0.6, page_count = 1\<rparr>,
        [([0, 0], ''image/png'')])"
  by (simp add: process_document_def PDF_def PNG_def process_pdf_def process_scanned_pdf_def
      scanned_body_def stub_capabilities_def stub_pillow_def page_marker_def page_sep_def
      str_nat.simps digit_char_def NL_def extract_text_with_claude_vision_def strip_def
      isspace_def new_OCRResult_def)

theorem process_document_confidence_witness:
  "(\<exists>r. process_document
          (stub_capabilities [Inr ''LIMITED WARRANTY: 24 months from date of purchase.  ''] 1
             ''text'')
          [1, 2] ''w.pdf'' ''application/pdf'' [] = (Inr r, []) \<and>
        confidence r = 0.7) \<and>
   (\<exists>r v. process_document (stub_capabilities [] 1 ''text'') [7] ''w.png'' ''image/png'' []
            = (Inr r, v) \<and>
          confidence r = 0.65 \<and> 0 \<le> confidence r \<and> confidence r \<le> 1) \<and>
   (\<exists>r v. process_document (stub_capabilities [Inr ''Warranty''] 1 ''text'') [1, 2] ''s.pdf''
              ''application/pdf'' [] = (Inr r, v) \<and>
          confidence r = 0.6 \<and> 0 \<le> confidence r \<and> confidence r \<le> 1)"
proof -
  let ?long = "''LIMITED WARRANTY: 24 months from date of purchase.  ''"
  have rd: "pdf_reader (stub_capabilities [Inr ?long] 1 ''text'') [1, 2] = Inr (map Inr [?long])"
    by (simp add: stub_capabilities_def)
  have st: "50 \<le> length (strip (concatenated_text [?long]))"
    by (simp add: concatenated_long strip_def isspace_def NL_def)
  have ln: "length (concatenated_text [?long]) = 67"
    by (simp add: concatenated_long)
  have native: "\<exists>r. process_document (stub_capabilities [Inr ?long] 1 ''text'')
          [1, 2] ''w.pdf'' ''application/pdf'' [] = (Inr r, []) \<and> confidence r = 0.7"
    using process_document_confidence [where caps = "stub_capabilities [Inr ?long] 1 ''text''"
        and content = "[1, 2]" and file_name = "''w.pdf''" and vlog = "[]" and texts = "[?long]",
        THEN conjunct2, THEN conjunct1] rd st ln
    by auto
  have img: "confidence \<lparr>ocr_text = ''text'', confidence = 0.65, page_count = 1\<rparr>
      = (if length (ocr_text \<lparr>ocr_text = ''text'', confidence = 0.65, page_count = 1\<rparr>) > 50
         then 0.88 else 0.65)"
    using process_document_confidence [where caps = "stub_capabilities [] 1 ''text''"
        and content = "[7]" and file_name = "''w.png''" and mime = "''image/png''"
        and vlog = "[]"
        and res = "\<lparr>ocr_text = ''text'', confidence = 0.65, page_count = 1\<rparr>"
        and vlog' = "[([40, 30], ''image/png'')]",
        THEN conjunct2, THEN conjunct2, THEN conjunct2] stub_image_run
    by blast
  have scan: "0 \<le> confidence \<lparr>ocr_text = ''--- Page 1 ---'' @ [NL] @ ''text'',
        confidence = 0.6, page_count = 1\<rparr> \<and>
      confidence \<lparr>ocr_text = ''--- Page 1 ---'' @ [NL] @ ''text'',
        confidence = 0.6, page_count = 1\<rparr> \<le> 1"
    using process_document_confidence [where
        caps = "stub_capabilities [Inr ''Warranty''] 1 ''text''"
        and content = "[1, 2]" and file_name = "''s.pdf''" and mime = "''application/pdf''"
        and vlog = "[]"
        and res = "\<lparr>ocr_text = ''--- Page 1 ---'' @ [NL] @ ''text'',
          confidence = 0.6, page_count = 1\<rparr>"
        and vlog' = "[([0, 0], ''image/png'')]", THEN conjunct1] stub_scanned_run
    by blast
  show ?thesis
    using native img scan stub_image_run stub_scanned_run by simp
qed

text \<open>
  The claim as the specification words it, with the confidence a function of the length of
  the text returned, fails: two one-page PDFs whose texts differ in five trailing spaces
  return the same text of 100 characters, the first with confidence 0.7 and the second with
  0.95.
\<close>

theorem process_document_output_length_counterexample:
  "process_document
     (stub_capabilities
        [Inr ''LIMITED WARRANTY. This product is covered for 24 months from the date of purchase. OK'']
        1 ''text'')
     [1, 2] ''a.pdf'' ''application/pdf'' []
     = (Inr \<lparr>ocr_text =
               ''--- Page 1 ---'' @ [NL] @ ''LIMITED WARRANTY. This product is covered for 24 months from the date of purchase. OK'',
             confidence = 0.7, page_count = 1\<rparr>, []) \<and>
   process_document
     (stub_capabilities
        [Inr ''LIMITED WARRANTY. This product is covered for 24 months from the date of purchase. OK     '']
        1 ''text'')
     [1, 2] ''b.pdf'' ''application/pdf'' []
     = (Inr \<lparr>ocr_text =
               ''--- Page 1 ---'' @ [NL] @ ''LIMITED WARRANTY. This product is covered for 24 months from the date of purchase. OK'',
             confidence = 0.95, page_count = 1\<rparr>, []) \<and>
   length (''--- Page 1 ---'' @ [NL] @ ''LIMITED WARRANTY. This product is covered for 24 months from the date of purchase. OK'')
     = 100 \<and>
   (0.7 :: real) \<noteq> 0.95"
  by (simp add: process_document_def PDF_def process_pdf_def stub_capabilities_def
      page_marker_def page_sep_def str_nat.simps digit_char_def NL_def strip_def isspace_def
      new_OCRResult_def)



end
